theory Spec2Isabelle
  imports Complex_Main "HOL-Library.Word" "HOL-Library.Sublist"
begin

section \<open>JavaScript numbers\<close>

text \<open>
  Every numeric value of the program is a JavaScript \<^verbatim>\<open>number\<close>, an IEEE 754 binary64
  value. A finite number other than \<^verbatim>\<open>-0\<close> is given by the real it denotes (\<open>Fin 0\<close> is
  \<^verbatim>\<open>+0\<close>); \<^verbatim>\<open>-0\<close>, \<^verbatim>\<open>Infinity\<close>, \<^verbatim>\<open>-Infinity\<close> and \<^verbatim>\<open>NaN\<close> are values of their own.
\<close>

datatype number = Fin real | NegZero | PInf | NInf | NaN

text \<open>The sign bit, and the zeros and infinities of a given sign.\<close>

fun negative :: "number \<Rightarrow> bool" where
  "negative (Fin a) = (a < 0)"
| "negative NegZero = True"
| "negative NInf = True"
| "negative PInf = False"
| "negative NaN = False"

fun is_zero :: "number \<Rightarrow> bool" where
  "is_zero (Fin a) = (a = 0)"
| "is_zero NegZero = True"
| "is_zero x = False"

fun is_infinite :: "number \<Rightarrow> bool" where
  "is_infinite PInf = True"
| "is_infinite NInf = True"
| "is_infinite x = False"

definition signed_zero :: "bool \<Rightarrow> number" where
  "signed_zero positive = (if positive then Fin 0 else NegZero)"

definition signed_inf :: "bool \<Rightarrow> number" where
  "signed_inf positive = (if positive then PInf else NInf)"

text \<open>
  Rounding to binary64, to the nearest value with a tie going to the even significand.
  A nonzero real \<open>x\<close> with \<open>2^k \<le> \<bar>x\<bar> < 2^(k+1)\<close> is rounded to a multiple of \<open>2^e\<close>, where
  \<open>e = k - 52\<close>, and \<open>e = -1074\<close> in the subnormal range; a result of magnitude \<open>2^1024\<close> or
  more is an infinity, and a result that is zero keeps the sign of \<open>x\<close>.
\<close>

definition round_half_even :: "real \<Rightarrow> int" where
  "round_half_even t =
     (let f = \<lfloor>t\<rfloor>
      in if t - of_int f < 1 / 2 then f
         else if 1 / 2 < t - of_int f then f + 1
         else if even f then f else f + 1)"

definition exponent :: "real \<Rightarrow> int" where
  "exponent x = max (\<lfloor>log 2 \<bar>x\<bar>\<rfloor> - 52) (- 1074)"

definition binary64 :: "real \<Rightarrow> number" where
  "binary64 x =
     (if x = 0 then Fin 0
      else let e = exponent x;
               y = of_int (round_half_even (x / 2 powi e)) * 2 powi e
           in if 2 ^ 1024 \<le> \<bar>y\<bar> then signed_inf (0 < x)
              else if y = 0 then signed_zero (0 < x)
              else Fin y)"

text \<open>
  The reals that binary64 has: an integer significand below \<open>2^53\<close> in magnitude times a
  power of two in range. A \<open>number\<close> of the program is a special value or \<open>Fin\<close> of such a
  real.
\<close>

definition is_double :: "real \<Rightarrow> bool" where
  "is_double x \<longleftrightarrow>
     (\<exists>m e. x = of_int m * 2 powi e \<and> \<bar>m\<bar> < 2 ^ 53 \<and> - 1074 \<le> e \<and> e \<le> 971)"

fun is_number :: "number \<Rightarrow> bool" where
  "is_number (Fin a) = is_double a"
| "is_number x = True"

text \<open>
  The arithmetic: the exact result, rounded. An exact zero result of a sum is \<^verbatim>\<open>+0\<close>
  unless both terms are \<^verbatim>\<open>-0\<close>; a zero product or quotient has the sign of its
  operands' signs combined.
\<close>

fun js_neg :: "number \<Rightarrow> number" where
  "js_neg (Fin a) = (if a = 0 then NegZero else Fin (- a))"
| "js_neg NegZero = Fin 0"
| "js_neg PInf = NInf"
| "js_neg NInf = PInf"
| "js_neg NaN = NaN"

fun js_add :: "number \<Rightarrow> number \<Rightarrow> number" where
  "js_add (Fin a) (Fin b) = binary64 (a + b)"
| "js_add NaN b = NaN"
| "js_add a NaN = NaN"
| "js_add NegZero b = b"
| "js_add a NegZero = a"
| "js_add PInf NInf = NaN"
| "js_add NInf PInf = NaN"
| "js_add PInf b = PInf"
| "js_add a PInf = PInf"
| "js_add NInf b = NInf"
| "js_add a NInf = NInf"

definition js_sub :: "number \<Rightarrow> number \<Rightarrow> number" where
  "js_sub a b = js_add a (js_neg b)"

fun js_mul :: "number \<Rightarrow> number \<Rightarrow> number" where
  "js_mul NaN b = NaN"
| "js_mul a NaN = NaN"
| "js_mul (Fin a) (Fin b) =
     (if a = 0 \<or> b = 0 then signed_zero ((a < 0) = (b < 0)) else binary64 (a * b))"
| "js_mul a b =
     (if is_infinite a \<or> is_infinite b
      then (if is_zero a \<or> is_zero b then NaN else signed_inf (negative a = negative b))
      else signed_zero (negative a = negative b))"

fun js_div :: "number \<Rightarrow> number \<Rightarrow> number" where
  "js_div NaN b = NaN"
| "js_div a NaN = NaN"
| "js_div (Fin a) (Fin b) =
     (if b = 0 then (if a = 0 then NaN else signed_inf (0 < a))
      else if a = 0 then signed_zero (0 < b)
      else binary64 (a / b))"
| "js_div a b =
     (if is_infinite a
      then (if is_infinite b then NaN else signed_inf (negative a = negative b))
      else if is_infinite b then signed_zero (negative a = negative b)
      else if is_zero b
      then (if is_zero a then NaN else signed_inf (negative a = negative b))
      else signed_zero (negative a = negative b))"

text \<open>
  The comparison \<^verbatim>\<open>a < b\<close>: false as soon as one side is \<^verbatim>\<open>NaN\<close>; the two zeros are
  equal.
\<close>

fun js_lt :: "number \<Rightarrow> number \<Rightarrow> bool" where
  "js_lt (Fin a) (Fin b) = (a < b)"
| "js_lt NaN b = False"
| "js_lt a NaN = False"
| "js_lt (Fin a) NegZero = (a < 0)"
| "js_lt NegZero (Fin b) = (0 < b)"
| "js_lt NegZero NegZero = False"
| "js_lt a NInf = False"
| "js_lt NInf b = True"
| "js_lt PInf b = False"
| "js_lt a PInf = True"

definition js_gt :: "number \<Rightarrow> number \<Rightarrow> bool" where
  "js_gt a b = js_lt b a"

text \<open>
  \<^verbatim>\<open>Math.round\<close> (the nearest integer, a tie going up; \<^verbatim>\<open>-0\<close> for a value from \<open>-1/2\<close>
  up to \<^verbatim>\<open>-0\<close>), \<^verbatim>\<open>Math.floor\<close> and \<^verbatim>\<open>Math.sqrt\<close> (the root, rounded). The first two
  are exact on binary64 values.
\<close>

fun Math_round :: "number \<Rightarrow> number" where
  "Math_round (Fin a) = (if - 1 / 2 \<le> a \<and> a < 0 then NegZero else Fin (of_int \<lfloor>a + 1 / 2\<rfloor>))"
| "Math_round x = x"

fun Math_floor :: "number \<Rightarrow> number" where
  "Math_floor (Fin a) = Fin (of_int \<lfloor>a\<rfloor>)"
| "Math_floor x = x"

fun Math_sqrt :: "number \<Rightarrow> number" where
  "Math_sqrt (Fin a) = (if a < 0 then NaN else binary64 (sqrt a))"
| "Math_sqrt NegZero = NegZero"
| "Math_sqrt PInf = PInf"
| "Math_sqrt x = NaN"

text \<open>The test \<^verbatim>\<open>x % 2 === 0\<close>: true of the even integers only, \<^verbatim>\<open>-0\<close> among them.\<close>

fun remainder_2_is_0 :: "number \<Rightarrow> bool" where
  "remainder_2_is_0 (Fin a) = (a = 2 * of_int \<lfloor>a / 2\<rfloor>)"
| "remainder_2_is_0 NegZero = True"
| "remainder_2_is_0 x = False"

text \<open>A value that is a number in the ordinary sense.\<close>

fun is_finite :: "number \<Rightarrow> bool" where
  "is_finite (Fin a) = True"
| "is_finite NegZero = True"
| "is_finite x = False"

text \<open>
  Reading a property that may be \<^verbatim>\<open>undefined\<close> into an arithmetic expression:
  \<^verbatim>\<open>undefined\<close> converts to \<^verbatim>\<open>NaN\<close>.
\<close>

fun ToNumber :: "number option \<Rightarrow> number" where
  "ToNumber None = NaN"
| "ToNumber (Some a) = a"

text \<open>
  A store into a \<^verbatim>\<open>Uint8ClampedArray\<close> (the pixel array of an \<^verbatim>\<open>ImageData\<close>):
  \<^verbatim>\<open>NaN\<close> becomes 0, the value is clamped to 0..255 and rounded to the nearest integer,
  a tie going to the even one.
\<close>

fun ToUint8Clamp :: "number \<Rightarrow> 8 word" where
  "ToUint8Clamp NaN = 0"
| "ToUint8Clamp NInf = 0"
| "ToUint8Clamp NegZero = 0"
| "ToUint8Clamp PInf = 255"
| "ToUint8Clamp (Fin a) =
     (if a \<le> 0 then 0
      else if 255 \<le> a then 255
      else let f = \<lfloor>a\<rfloor> in
        if of_int f + 1 / 2 < a then word_of_int (f + 1)
        else if a < of_int f + 1 / 2 then word_of_int f
        else if even f then word_of_int f else word_of_int (f + 1))"

text \<open>
  A store into an \<^verbatim>\<open>Int16Array\<close>: \<^verbatim>\<open>NaN\<close> and the infinities become 0, a finite value
  is truncated towards zero and kept modulo \<open>2^16\<close>.
\<close>

fun ToInt16 :: "number \<Rightarrow> 16 word" where
  "ToInt16 (Fin a) = word_of_int (if 0 \<le> a then \<lfloor>a\<rfloor> else \<lceil>a\<rceil>)"
| "ToInt16 x = 0"

section \<open>Arrays and loops\<close>

text \<open>
  An array read \<^verbatim>\<open>a[i]\<close>: \<^verbatim>\<open>undefined\<close> outside the array. A store into a typed array
  outside its bounds is ignored.
\<close>

definition lookup :: "'a list \<Rightarrow> int \<Rightarrow> 'a option" where
  "lookup a i = (if 0 \<le> i \<and> i < int (length a) then Some (a ! nat i) else None)"

definition store :: "'a list \<Rightarrow> int \<Rightarrow> 'a \<Rightarrow> 'a list" where
  "store a i v = (if 0 \<le> i \<and> i < int (length a) then a[nat i := v] else a)"

text \<open>
  The loop \<^verbatim>\<open>for (j = a; j < n; j++) body\<close> over a state \<open>s\<close>, and the same loop with
  a body that may throw: the first exception ends the loop.
\<close>

function for_loop :: "int \<Rightarrow> int \<Rightarrow> (int \<Rightarrow> 's \<Rightarrow> 's) \<Rightarrow> 's \<Rightarrow> 's" where
  "for_loop j n body s = (if j < n then for_loop (j + 1) n body (body j s) else s)"
  by pat_completeness auto
termination
  by (relation "measure (\<lambda>(j, n, body, s). nat (n - j))") auto

function for_loopE :: "int \<Rightarrow> int \<Rightarrow> (int \<Rightarrow> 's \<Rightarrow> 'e + 's) \<Rightarrow> 's \<Rightarrow> 'e + 's" where
  "for_loopE j n body s =
     (if j < n then (case body j s of Inl e \<Rightarrow> Inl e | Inr s' \<Rightarrow> for_loopE (j + 1) n body s')
      else Inr s)"
  by pat_completeness auto
termination
  by (relation "measure (\<lambda>(j, n, body, s). nat (n - j))") auto

declare for_loop.simps [simp del] for_loopE.simps [simp del]

section \<open>images.ts\<close>

text \<open>
  The exceptions the image functions can end with: a \<^verbatim>\<open>TypeError\<close> (a property of
  \<^verbatim>\<open>undefined\<close>, a canvas size out of range, a heightmap that is no image source) and the
  canvas's \<^verbatim>\<open>IndexSizeError\<close> (image data of zero width or height).
\<close>

datatype error = TypeError | IndexSizeError

text \<open>
  \<^verbatim>\<open>ImageData\<close>: \<open>iwidth * iheight\<close> pixels in rows, four bytes (R, G, B, A) each. A canvas
  or an image is modelled by the pixels it holds.
\<close>

record ImageData =
  iwidth :: int
  iheight :: int
  idata :: "8 word list"

text \<open>
  The vertex array of the plane geometry, modelled by the \<^verbatim>\<open>z\<close> coordinate of each vertex
  (the only property the functions of this theory read or write).
\<close>

type_synonym vertices = "number list"

text \<open>
  \<^verbatim>\<open>options.heightmap\<close>: an object (\<open>Some\<close> a canvas or image, or \<open>None\<close> for \<^verbatim>\<open>null\<close> and
  every object that is no image source), a generator function, or any other value. A
  generator mutates the vertex array; it is modelled by the array it leaves.
\<close>

datatype heightmap =
  HeightmapObject "ImageData option"
| HeightmapFunction "vertices \<Rightarrow> vertices"
| HeightmapOther

text \<open>
  The three.js objects the constructor handles. A material is the default
  \<^verbatim>\<open>MeshBasicMaterial\<close> of a given colour or some material of the caller's. A geometry has
  its \<^verbatim>\<open>type\<close> name, the two segment counts of its \<^verbatim>\<open>parameters\<close> (read for a plane
  geometry only), its vertex array and the two dirty flags; a mesh has a geometry (or
  none) and a material.
\<close>

datatype material = MeshBasicMaterial int | CallerMaterial int

record Geometry =
  gtype :: string
  parameters_widthSegments :: int
  parameters_heightSegments :: int
  vertices :: vertices
  verticesNeedUpdate :: bool
  normalsNeedUpdate :: bool

record Mesh =
  geometry :: "Geometry option"
  mesh_material :: "material option"

text \<open>
  The fields of \<^verbatim>\<open>TerrainOptions\<close> that the code under verification reads.
  \<open>maxHeight\<close> and \<open>minHeight\<close> may be \<^verbatim>\<open>undefined\<close> (\<open>None\<close>); \<open>after\<close> is \<open>Some\<close>
  callback or \<^verbatim>\<open>null\<close>, and so are \<open>material\<close> and \<open>mesh\<close>. The callback mutates the
  vertex array and is modelled by the array it leaves. The segment counts are integers,
  the sizes \<open>width\<close> and \<open>height\<close> numbers.
\<close>

record TerrainOptions =
  after :: "(vertices \<Rightarrow> vertices) option"
  heightmap :: heightmap
  material :: "material option"
  maxHeight :: "number option"
  minHeight :: "number option"
  steps :: number
  turbulent :: bool
  useBufferGeometry :: bool
  widthSegments :: int
  width :: number
  heightSegments :: int
  height :: number
  mesh :: "Mesh option"

text \<open>
  A channel read \<^verbatim>\<open>data[p] << n\<close>: the byte as a 32-bit integer, shifted
  (\<^verbatim>\<open>undefined\<close> converts to 0).
\<close>

definition shl :: "8 word option \<Rightarrow> nat \<Rightarrow> int" where
  "shl b n = (case b of None \<Rightarrow> 0 | Some c \<Rightarrow> sint (push_bit n (ucast c :: 32 word)))"

text \<open>
  The three-byte integer read at \<^verbatim>\<open>pixelIndex\<close>: the sum of the three channel terms, the
  last of which is the byte itself (\<^verbatim>\<open>undefined\<close> makes the sum \<^verbatim>\<open>NaN\<close>).
\<close>

definition packed :: "8 word list \<Rightarrow> int \<Rightarrow> number" where
  "packed data pixelIndex =
     (case lookup data (pixelIndex + 2) of
        None \<Rightarrow> NaN
      | Some b \<Rightarrow>
          Fin (of_int (shl (lookup data (pixelIndex + 0)) 16 +
                       shl (lookup data (pixelIndex + 1)) 8 + uint b)))"

text \<open>
  \<^verbatim>\<open>fromHeightmap(verts, options)\<close>. The first argument is the platform's part of the
  work: \<open>drawImage img w h\<close> is the content of a \<open>w\<close> by \<open>h\<close> canvas after the heightmap
  \<open>img\<close> was drawn over the whole of it (scaled when the sizes differ), as
  \<^verbatim>\<open>getImageData\<close> returns it. The canvas is \<^verbatim>\<open>widthSegments\<close> by \<^verbatim>\<open>heightSegments\<close>
  (the \<^verbatim>\<open>OffscreenCanvas\<close> constructor refuses a negative size, \<^verbatim>\<open>getImageData\<close> a zero
  one). The result is the vertex array as the function leaves it.
\<close>

definition fromHeightmap ::
  "(ImageData \<Rightarrow> int \<Rightarrow> int \<Rightarrow> 8 word list) \<Rightarrow> vertices \<Rightarrow> TerrainOptions \<Rightarrow> error + vertices"
where
  "fromHeightmap drawImage verts options =
     (if widthSegments options < 0 \<or> heightSegments options < 0 then Inl TypeError
      else
        let spread = js_sub (ToNumber (maxHeight options)) (ToNumber (minHeight options)) in
        case heightmap options of
          HeightmapObject (Some img) \<Rightarrow>
            if widthSegments options = 0 \<or> heightSegments options = 0 then Inl IndexSizeError
            else
              let imgdata = \<lparr>iwidth = widthSegments options, iheight = heightSegments options,
                     idata = drawImage img (widthSegments options) (heightSegments options)\<rparr>;
                  data = idata imgdata
              in for_loopE 0 (iwidth imgdata) (\<lambda>x. for_loopE 0 (iheight imgdata) (\<lambda>y verts.
                   let vertIndex = x * iheight imgdata + y;
                       pixelIndex = vertIndex * 4
                   in case lookup verts vertIndex of
                        None \<Rightarrow> Inl TypeError
                      | Some vert \<Rightarrow>
                          Inr (verts[nat vertIndex :=
                            js_add (js_mul (js_div (packed data pixelIndex) (Fin 16777215)) spread)
                              (ToNumber (minHeight options))]))) verts
        | _ \<Rightarrow> Inl TypeError)"

text \<open>
  Assigning \<^verbatim>\<open>canvas.width\<close> or \<^verbatim>\<open>canvas.height\<close> of an \<^verbatim>\<open>HTMLCanvasElement\<close>: the value
  is taken modulo \<open>2^32\<close> and, when it then exceeds \<open>2^31 - 1\<close>, replaced by the attribute's
  default.
\<close>

definition canvas_dim :: "int \<Rightarrow> int \<Rightarrow> int" where
  "canvas_dim d dflt = (let u = d mod 2 ^ 32 in if u \<le> 2147483647 then u else dflt)"

text \<open>
  The scan of \<^verbatim>\<open>toHeightmap\<close> for the largest and the smallest sample, from the
  starting values \<open>(max2, min2)\<close>.
\<close>

definition scan_range :: "vertices \<Rightarrow> number \<times> number \<Rightarrow> number \<times> number" where
  "scan_range g start =
     fold (\<lambda>z (max2, min2).
             let max2 = (if js_gt z max2 then z else max2);
                 min2 = (if js_lt z min2 then z else min2)
             in (max2, min2)) g start"

text \<open>
  The range that \<^verbatim>\<open>toHeightmap\<close> encodes with: the pair of the source's \<^verbatim>\<open>max\<close> (here
  \<open>hi\<close>) and \<^verbatim>\<open>min\<close> (here \<open>lo\<close>).
\<close>

definition encoding_range :: "vertices \<Rightarrow> TerrainOptions \<Rightarrow> number \<times> number" where
  "encoding_range g options =
     (let hasMax = (maxHeight options \<noteq> None);
          hasMin = (minHeight options \<noteq> None);
          hi = (case maxHeight options of Some m \<Rightarrow> m | None \<Rightarrow> NInf);
          lo = (case minHeight options of Some m \<Rightarrow> m | None \<Rightarrow> PInf)
      in if \<not> hasMax \<or> \<not> hasMin then
           (let (max2, min2) = scan_range g (hi, lo)
            in (if \<not> hasMax then max2 else hi, if \<not> hasMin then min2 else lo))
         else (hi, lo))"

text \<open>The value \<^verbatim>\<open>toHeightmap\<close> computes for a sample, before it is stored in the pixel.\<close>

definition rescaled :: "number \<Rightarrow> number \<Rightarrow> number \<Rightarrow> number" where
  "rescaled z lo spread = Math_round (js_mul (js_div (js_sub z lo) spread) (Fin 255))"

text \<open>
  \<^verbatim>\<open>toHeightmap(g, options)\<close>: the image painted on the canvas it returns (the same pixels
  whether \<^verbatim>\<open>options.heightmap\<close> was a canvas to reuse or not). The chained assignment
  stores the same value into the blue, the green and the red byte, in this order.
\<close>

definition toHeightmap :: "vertices \<Rightarrow> TerrainOptions \<Rightarrow> error + ImageData" where
  "toHeightmap g options =
     (let (hi, lo) = encoding_range g options;
          rows = heightSegments options + 1;
          cols = widthSegments options + 1;
          spread = js_sub hi lo;
          canvas_width = canvas_dim cols 300;
          canvas_height = canvas_dim rows 150
      in if canvas_width = 0 \<or> canvas_height = 0 then Inl IndexSizeError
         else
           case for_loopE 0 rows (\<lambda>row. for_loopE 0 cols (\<lambda>col data.
                  let i = row * cols + col;
                      idx = i * 4
                  in case lookup g i of
                       None \<Rightarrow> Inl TypeError
                     | Some z \<Rightarrow>
                         let v = rescaled z lo spread;
                             data = store data (idx + 2) (ToUint8Clamp v);
                             data = store data (idx + 1) (ToUint8Clamp v);
                             data = store data idx (ToUint8Clamp v);
                             data = store data (idx + 3) (ToUint8Clamp (Fin 255))
                         in Inr data))
                  (replicate (nat (4 * canvas_width * canvas_height)) 0)
           of Inl e \<Rightarrow> Inl e
            | Inr data \<Rightarrow> Inr \<lparr>iwidth = canvas_width, iheight = canvas_height, idata = data\<rparr>)"

section \<open>weightedBoxBlurGaussian.ts\<close>

text \<open>
  A read \<^verbatim>\<open>a[i]\<close> of a \<^verbatim>\<open>Float64Array\<close> inside an arithmetic expression: outside the
  array it is \<^verbatim>\<open>undefined\<close>, which the arithmetic turns into \<^verbatim>\<open>NaN\<close>.
\<close>

definition rd :: "number list \<Rightarrow> int \<Rightarrow> number" where
  "rd a i = ToNumber (lookup a i)"

text \<open>
  \<^verbatim>\<open>boxesForGauss(sigma, boxCount)\<close>: the box widths, stored in an \<^verbatim>\<open>Int16Array\<close>.
  The arithmetic is the program's, operation by operation and in its order.
\<close>

definition boxesForGauss :: "number \<Rightarrow> nat \<Rightarrow> 16 word list" where
  "boxesForGauss sigma boxCount =
     (let n = Fin (real boxCount);
          wIdeal = Math_sqrt (js_add (js_div (js_mul (js_mul (Fin 12) sigma) sigma) n) (Fin 1));
          wl = Math_floor wIdeal;
          wl = (if remainder_2_is_0 wl then js_sub wl (Fin 1) else wl);
          wu = js_add wl (Fin 2);
          mIdeal = js_div
                     (js_sub (js_sub (js_sub (js_mul (js_mul (Fin 12) sigma) sigma)
                                             (js_mul (js_mul n wl) wl))
                                     (js_mul (js_mul (Fin 4) n) wl))
                             (js_mul (Fin 3) n))
                     (js_sub (js_mul (Fin (- 4)) wl) (Fin 4));
          m = Math_round mIdeal
      in map (\<lambda>i. ToInt16 (if js_lt (Fin (real i)) m then wl else wu)) [0..<boxCount])"

text \<open>
  \<^verbatim>\<open>boxBlurH(scl, tcl, w, h, r)\<close> reads \<open>scl\<close> and writes \<open>tcl\<close>, which is returned as
  the function leaves it. The two arrays are distinct objects. The radius \<open>r\<close> is an
  integer (every box width is odd, see \<open>boxesForGauss_odd\<close> below). The state of each
  inner loop is the tuple of the variables it changes.
\<close>

definition boxBlurH :: "number list \<Rightarrow> number list \<Rightarrow> int \<Rightarrow> int \<Rightarrow> int \<Rightarrow> number list" where
  "boxBlurH scl tcl w h r =
     (let iarr = js_div (Fin 1) (Fin (of_int (r + r + 1)))
      in for_loop 0 h (\<lambda>i tcl.
           let ti = i * w;
               li = ti;
               ri = ti + r;
               fv = rd scl ti;
               lv = rd scl (ti + w - 1);
               val = js_mul (Fin (of_int (r + 1))) fv;
               val = for_loop 0 r (\<lambda>j val. js_add val (rd scl (ti + j))) val;
               (val, ri, ti, tcl) =
                 for_loop 0 (r + 1) (\<lambda>j (val, ri, ti, tcl).
                   let val = js_add val (js_sub (rd scl ri) fv)
                   in (val, ri + 1, ti + 1, store tcl ti (js_mul val iarr)))
                   (val, ri, ti, tcl);
               (val, ri, li, ti, tcl) =
                 for_loop (r + 1) (w - r) (\<lambda>j (val, ri, li, ti, tcl).
                   let val = js_add val (js_sub (rd scl ri) (rd scl li))
                   in (val, ri + 1, li + 1, ti + 1, store tcl ti (js_mul val iarr)))
                   (val, ri, li, ti, tcl);
               (val, li, ti, tcl) =
                 for_loop (w - r) w (\<lambda>j (val, li, ti, tcl).
                   let val = js_add val (js_sub lv (rd scl li))
                   in (val, li + 1, ti + 1, store tcl ti (js_mul val iarr)))
                   (val, li, ti, tcl)
           in tcl) tcl)"

text \<open>\<^verbatim>\<open>boxBlurV(scl, tcl, w, h, r)\<close>, in the same way.\<close>

definition boxBlurV :: "number list \<Rightarrow> number list \<Rightarrow> int \<Rightarrow> int \<Rightarrow> int \<Rightarrow> number list" where
  "boxBlurV scl tcl w h r =
     (let iarr = js_div (Fin 1) (Fin (of_int (r + r + 1)))
      in for_loop 0 w (\<lambda>i tcl.
           let ti = i;
               li = ti;
               ri = ti + r * w;
               fv = rd scl ti;
               lv = rd scl (ti + w * (h - 1));
               val = js_mul (Fin (of_int (r + 1))) fv;
               val = for_loop 0 r (\<lambda>j val. js_add val (rd scl (ti + j * w))) val;
               (val, ri, ti, tcl) =
                 for_loop 0 (r + 1) (\<lambda>j (val, ri, ti, tcl).
                   let val = js_add val (js_sub (rd scl ri) fv)
                   in (val, ri + w, ti + w, store tcl ti (js_mul val iarr)))
                   (val, ri, ti, tcl);
               (val, ri, li, ti, tcl) =
                 for_loop (r + 1) (h - r) (\<lambda>j (val, ri, li, ti, tcl).
                   let val = js_add val (js_sub (rd scl ri) (rd scl li))
                   in (val, ri + w, li + w, ti + w, store tcl ti (js_mul val iarr)))
                   (val, ri, li, ti, tcl);
               (val, li, ti, tcl) =
                 for_loop (h - r) h (\<lambda>j (val, li, ti, tcl).
                   let val = js_add val (js_sub lv (rd scl li))
                   in (val, li + w, ti + w, store tcl ti (js_mul val iarr)))
                   (val, li, ti, tcl)
           in tcl) tcl)"

text \<open>
  \<^verbatim>\<open>boxBlur(scl, tcl, w, h, r)\<close> changes both of its arrays: the result is the pair of
  \<open>scl\<close> and \<open>tcl\<close> as the function leaves them.
\<close>

definition boxBlur ::
  "number list \<Rightarrow> number list \<Rightarrow> int \<Rightarrow> int \<Rightarrow> int \<Rightarrow> number list \<times> number list"
where
  "boxBlur scl tcl w h r =
     (let tcl = for_loop 0 (int (length scl)) (\<lambda>i tcl. store tcl i (rd scl i)) tcl;
          scl = boxBlurH tcl scl w h r;
          tcl = boxBlurV scl tcl w h r
      in (scl, tcl))"

text \<open>
  \<^verbatim>\<open>gaussianBoxBlur(src, w, h, radius, boxCount, target)\<close>: the pair of \<open>src\<close> as the
  function leaves it and of the target channel it returns. A target of the caller's is
  an array other than \<open>src\<close>; without one, a new array of zeros is made. The radius of
  a pass is \<open>(boxes[i] - 1) / 2\<close>, an integer for an odd box width. (The width is odd
  whenever \<open>wIdeal\<close> is finite; for a radius that is \<^verbatim>\<open>NaN\<close> or overflows, the stored
  width is 0, a case the claims below do not reach.)
\<close>

definition gaussianBoxBlur ::
  "number list \<Rightarrow> int \<Rightarrow> int \<Rightarrow> number \<Rightarrow> nat \<Rightarrow> number list option
     \<Rightarrow> number list \<times> number list"
where
  "gaussianBoxBlur src w h radius boxCount target =
     (let target = (case target of None \<Rightarrow> replicate (length src) (Fin 0) | Some t \<Rightarrow> t);
          boxes = boxesForGauss radius boxCount
      in for_loop 0 (int boxCount) (\<lambda>i (src, target).
           boxBlur src target w h ((sint (boxes ! nat i) - 1) div 2)) (src, target))"

text \<open>
  The two passes do the same work on a line of the image: \<open>boxBlurH\<close> on the row that
  starts at \<open>i * w\<close>, with \<open>w\<close> samples one apart, \<open>boxBlurV\<close> on the column that starts at
  \<open>i\<close>, with \<open>h\<close> samples \<open>w\<close> apart. \<open>blur_line\<close> is this common body, on a line of \<open>n\<close>
  samples \<open>step\<close> apart from the index \<open>t0\<close>; it serves the proofs, where both passes are
  shown to be loops of it.
\<close>

definition blur_line ::
  "number list \<Rightarrow> number list \<Rightarrow> int \<Rightarrow> int \<Rightarrow> int \<Rightarrow> int \<Rightarrow> number list"
where
  "blur_line scl tcl t0 step n r =
     (let iarr = js_div (Fin 1) (Fin (of_int (r + r + 1)));
          ti = t0;
          li = ti;
          ri = ti + r * step;
          fv = rd scl ti;
          lv = rd scl (ti + step * (n - 1));
          val = js_mul (Fin (of_int (r + 1))) fv;
          val = for_loop 0 r (\<lambda>j val. js_add val (rd scl (ti + j * step))) val;
          (val, ri, ti, tcl) =
            for_loop 0 (r + 1) (\<lambda>j (val, ri, ti, tcl).
              let val = js_add val (js_sub (rd scl ri) fv)
              in (val, ri + step, ti + step, store tcl ti (js_mul val iarr)))
              (val, ri, ti, tcl);
          (val, ri, li, ti, tcl) =
            for_loop (r + 1) (n - r) (\<lambda>j (val, ri, li, ti, tcl).
              let val = js_add val (js_sub (rd scl ri) (rd scl li))
              in (val, ri + step, li + step, ti + step, store tcl ti (js_mul val iarr)))
              (val, ri, li, ti, tcl);
          (val, li, ti, tcl) =
            for_loop (n - r) n (\<lambda>j (val, li, ti, tcl).
              let val = js_add val (js_sub lv (rd scl li))
              in (val, li + step, ti + step, store tcl ti (js_mul val iarr)))
              (val, li, ti, tcl)
      in tcl)"

text \<open>
  What a pass of radius \<open>r\<close> computes for the first sample of a line whose samples all are
  \<open>c\<close>: the sum \<open>(r + 1) * c + c + ... + c + (c - c)\<close>, accumulated in the order of the
  program, times \<open>1 / (r + r + 1)\<close>.
\<close>

definition line_average :: "int \<Rightarrow> number \<Rightarrow> number" where
  "line_average r c =
     (let iarr = js_div (Fin 1) (Fin (of_int (r + r + 1)));
          val = js_mul (Fin (of_int (r + 1))) c;
          val = for_loop 0 r (\<lambda>j val. js_add val c) val;
          val = js_add val (js_sub c c)
      in js_mul val iarr)"

section \<open>terrain.ts\<close>

text \<open>
  The functions of \<^verbatim>\<open>./filters\<close> and of three.js are not part of the code under
  verification; the terrain code is modelled over any behaviour of theirs. A filter
  and a generator mutate the vertex array and are given by the array they leave;
  \<open>PlaneGeometry\<close> gives the vertex array of a new plane geometry, \<open>new_Mesh\<close> the mesh
  that \<^verbatim>\<open>new Mesh()\<close> makes, \<open>drawImage\<close> the canvas content of \<open>fromHeightmap\<close>.
\<close>

record collaborators =
  applyTurbulenceTurbulence :: "vertices \<Rightarrow> TerrainOptions \<Rightarrow> vertices"
  applyTerrainStep :: "vertices \<Rightarrow> number \<Rightarrow> vertices"
  applyTerrainSmooth :: "vertices \<Rightarrow> TerrainOptions \<Rightarrow> vertices"
  applyTerrainClamp :: "vertices \<Rightarrow> TerrainOptions \<Rightarrow> vertices"
  PlaneGeometry :: "number \<Rightarrow> number \<Rightarrow> int \<Rightarrow> int \<Rightarrow> vertices"
  BufferGeometry_fromGeometry :: "Geometry \<Rightarrow> Geometry"
  new_Mesh :: Mesh
  drawImage :: "ImageData \<Rightarrow> int \<Rightarrow> int \<Rightarrow> 8 word list"

text \<open>
  The calls into the collaborators, in the order they are made. The log is the
  observable trace of a run; the code does not read it.
\<close>

datatype call =
  Call_PlaneGeometry number number int int
| Call_fromHeightmap
| Call_heightmap
| Call_applyTurbulenceTurbulence
| Call_applyTerrainStep number
| Call_applyTerrainSmooth
| Call_applyTerrainClamp
| Call_after
| Call_computeBoundingSphere
| Call_computeFaceNormals
| Call_computeVertexNormals
| Call_fromGeometry

text \<open>The truth value of a number and of an integer in a condition.\<close>

fun truthy :: "number \<Rightarrow> bool" where
  "truthy (Fin a) = (a \<noteq> 0)"
| "truthy NegZero = False"
| "truthy NaN = False"
| "truthy x = True"

text \<open>
  \<^verbatim>\<open>normalizeTerrain(geometry, options)\<close>, on the geometry and the log of calls so far.
\<close>

definition normalizeTerrain ::
  "collaborators \<Rightarrow> Geometry \<times> call list \<Rightarrow> TerrainOptions \<Rightarrow> Geometry \<times> call list"
where
  "normalizeTerrain env state options =
     (let (geometry, log) = state;
          verticies = vertices geometry;
          (verticies, log) =
            (if turbulent options
             then (applyTurbulenceTurbulence env verticies options,
                   log @ [Call_applyTurbulenceTurbulence])
             else (verticies, log));
          (verticies, log) =
            (if truthy (steps options) \<and> js_gt (steps options) (Fin 1)
             then (applyTerrainSmooth env (applyTerrainStep env verticies (steps options)) options,
                   log @ [Call_applyTerrainStep (steps options), Call_applyTerrainSmooth])
             else (verticies, log));
          (verticies, log) =
            (applyTerrainClamp env verticies options, log @ [Call_applyTerrainClamp]);
          (verticies, log) =
            (case after options of
               Some callback \<Rightarrow> (callback verticies, log @ [Call_after])
             | None \<Rightarrow> (verticies, log))
      in (geometry\<lparr>vertices := verticies, verticesNeedUpdate := True, normalsNeedUpdate := True\<rparr>,
          log @ [Call_computeBoundingSphere, Call_computeFaceNormals, Call_computeVertexNormals]))"


text \<open>\<^verbatim>\<open>TerrainOptionsDefault\<close>, over the generator \<^verbatim>\<open>DiamondSquare\<close> of \<^verbatim>\<open>./generators\<close>.\<close>

definition TerrainOptionsDefault :: "(vertices \<Rightarrow> vertices) \<Rightarrow> TerrainOptions" where
  "TerrainOptionsDefault DiamondSquare =
     \<lparr>after = None, heightmap = HeightmapFunction DiamondSquare, material = None,
      maxHeight = Some (Fin 100), minHeight = Some (Fin (- 100)), steps = Fin 1,
      turbulent = False, useBufferGeometry = False, widthSegments = 63, width = Fin 1024,
      heightSegments = 63, height = Fin 1024, mesh = None\<rparr>"





section \<open>Rounding to binary64\<close>

lemma round_half_even_int [simp]: "round_half_even (of_int n) = n"
  by (simp add: round_half_even_def)

lemma exponent_eq:
  assumes "2 powi k \<le> \<bar>x\<bar>" and "\<bar>x\<bar> < 2 powi (k + 1)"
  shows "exponent x = max (k - 52) (- 1074)"
proof -
  have pos: "0 < \<bar>x\<bar>" using assms(1) zero_less_power_int [of "2::real" k] by linarith
  have "(2::real) powr real_of_int k = 2 powi k" "(2::real) powr (real_of_int k + 1) = 2 powi (k + 1)"
    using powr_real_of_int' [of 2 k] powr_real_of_int' [of 2 "k + 1"] by simp_all
  then have "\<lfloor>log 2 \<bar>x\<bar>\<rfloor> = k"
    using assms pos floor_log_eq_powr_iff [of "\<bar>x\<bar>" 2 k] by simp
  then show ?thesis by (simp add: exponent_def)
qed

lemma exponent_bounds:
  assumes "x \<noteq> 0"
  shows "\<bar>x\<bar> < 2 powi (exponent x + 53)"
    and "- 1074 \<le> exponent x"
    and "- 1074 < exponent x \<Longrightarrow> 2 powi (exponent x + 52) \<le> \<bar>x\<bar>"
proof -
  define k where "k = \<lfloor>log 2 \<bar>x\<bar>\<rfloor>"
  have pos: "0 < \<bar>x\<bar>" using assms by simp
  have p: "(2::real) powr real_of_int k = 2 powi k" "(2::real) powr (real_of_int k + 1) = 2 powi (k + 1)"
    using powr_real_of_int' [of 2 k] powr_real_of_int' [of 2 "k + 1"] by simp_all
  have b: "2 powi k \<le> \<bar>x\<bar>" "\<bar>x\<bar> < 2 powi (k + 1)"
    using floor_log_eq_powr_iff [of "\<bar>x\<bar>" 2 k] pos p by (simp_all add: k_def)
  have e: "exponent x = max (k - 52) (- 1074)" by (simp add: exponent_def k_def)
  have "k + 1 \<le> exponent x + 53" using e by simp
  then have "(2::real) powi (k + 1) \<le> 2 powi (exponent x + 53)"
    by (intro power_int_increasing) simp_all
  then show "\<bar>x\<bar> < 2 powi (exponent x + 53)" using b by linarith
  show "- 1074 \<le> exponent x" using e by simp
  show "2 powi (exponent x + 52) \<le> \<bar>x\<bar>" if "- 1074 < exponent x"
  proof -
    have "exponent x = k - 52" using e that by linarith
    then show ?thesis using b by simp
  qed
qed

lemma binary64_exact:
  assumes x: "x = of_int m * 2 powi e" and m: "\<bar>m\<bar> < 2 ^ 53" and e: "- 1074 \<le> e" "e \<le> 971"
  shows "binary64 x = Fin x"
proof (cases "x = 0")
  case True
  then show ?thesis by (simp add: binary64_def)
next
  case False
  define E where "E = exponent x"
  have m0: "m \<noteq> 0" using False x by auto
  have ax: "\<bar>x\<bar> = of_int \<bar>m\<bar> * 2 powi e" by (simp add: x abs_mult)
  have "of_int \<bar>m\<bar> < (2::real) ^ 53" using m by (metis of_int_less_numeral_power_cancel_iff)
  then have lt: "\<bar>x\<bar> < 2 powi (e + 53)"
    by (simp add: ax power_int_add mult.commute)
  have Ele: "E \<le> e"
  proof (rule ccontr)
    assume "\<not> E \<le> e"
    then have g: "e < E" by simp
    then have "- 1074 < E" using e by simp
    then have "2 powi (E + 52) \<le> \<bar>x\<bar>" using exponent_bounds(3) [OF False] by (simp add: E_def)
    moreover have "(2::real) powi (e + 53) \<le> 2 powi (E + 52)"
      using g by (intro power_int_increasing) simp_all
    ultimately show False using lt by linarith
  qed
  then obtain d where d: "e = E + int d" by (metis zle_iff_zadd)
  have "x / 2 powi E = of_int m * 2 ^ d"
    by (simp add: x d power_int_add)
  also have "\<dots> = of_int (m * 2 ^ d)" by simp
  finally have q: "x / 2 powi E = of_int (m * 2 ^ d)" .
  have y: "of_int (round_half_even (x / 2 powi E)) * 2 powi E = x"
    unfolding q round_half_even_int by (simp add: x d power_int_add)
  have "(2::real) powi (e + 53) \<le> 2 powi 1024"
    using e by (intro power_int_increasing) simp_all
  then have "\<bar>x\<bar> < 2 ^ 1024" using lt by simp
  then show ?thesis
    using False y by (simp add: binary64_def Let_def E_def [symmetric])
qed

lemma binary64_int:
  assumes "\<bar>n\<bar> < 2 ^ 53"
  shows "binary64 (of_int n) = Fin (of_int n)"
  using binary64_exact [of "of_int n" n 0] assms by simp

lemma binary64_numeral [simp]:
  "numeral w < (2::int) ^ 53 \<Longrightarrow> binary64 (numeral w) = Fin (numeral w)"
  "numeral w < (2::int) ^ 53 \<Longrightarrow> binary64 (- numeral w) = Fin (- numeral w)"
  using binary64_int [of "numeral w"] binary64_int [of "- numeral w"] by simp_all

lemma binary64_0 [simp]: "binary64 0 = Fin 0"
  by (simp add: binary64_def)

lemma binary64_1 [simp]: "binary64 1 = Fin 1"
  using binary64_int [of 1] by simp

lemma binary64_eval:
  assumes "2 powi k \<le> \<bar>x\<bar>" and "\<bar>x\<bar> < 2 powi (k + 1)"
  shows "binary64 x =
           (let e = max (k - 52) (- 1074);
                y = of_int (round_half_even (x / 2 powi e)) * 2 powi e
            in if 2 ^ 1024 \<le> \<bar>y\<bar> then signed_inf (0 < x)
               else if y = 0 then signed_zero (0 < x)
               else Fin y)"
proof -
  have "x \<noteq> 0"
  proof
    assume "x = 0"
    with assms(1) have "2 powi k \<le> (0::real)" by simp
    moreover have "0 < (2::real) powi k" by (rule zero_less_power_int) simp
    ultimately show False by linarith
  qed
  then show ?thesis by (simp add: binary64_def exponent_eq [OF assms])
qed

lemma round_half_even_near:
  "of_int (round_half_even t) \<le> t + 1 / 2" "t - 1 / 2 \<le> of_int (round_half_even t)"
  unfolding round_half_even_def Let_def by (auto; linarith)+

lemma round_half_even_le:
  assumes "\<bar>t\<bar> < of_int N"
  shows "\<bar>round_half_even t\<bar> \<le> N"
proof -
  have "of_int (round_half_even t) < (of_int N :: real) + 1 / 2"
    "- (of_int N :: real) - 1 / 2 < of_int (round_half_even t)"
    using round_half_even_near [of t] assms by linarith+
  then have "of_int (round_half_even t) < (of_int (N + 1) :: real)"
    "(of_int (- N - 1) :: real) < of_int (round_half_even t)"
    by simp_all
  then have "round_half_even t < N + 1" "- N - 1 < round_half_even t"
    by (simp_all only: of_int_less_iff)
  then show ?thesis by linarith
qed

lemma round_half_even_ge:
  assumes "of_int M \<le> \<bar>t\<bar>" and "0 \<le> M"
  shows "M \<le> \<bar>round_half_even t\<bar>"
proof (cases "0 \<le> t")
  case True
  then have "(of_int M :: real) - 1 / 2 \<le> of_int (round_half_even t)"
    using round_half_even_near [of t] assms by linarith
  then have "(of_int (M - 1) :: real) < of_int (round_half_even t)" by simp
  then have "M - 1 < round_half_even t" by (simp only: of_int_less_iff)
  then show ?thesis by linarith
next
  case False
  then have "of_int (round_half_even t) \<le> - (of_int M :: real) + 1 / 2"
    using round_half_even_near [of t] assms by linarith
  then have "of_int (round_half_even t) < (of_int (- M + 1) :: real)" by simp
  then have "round_half_even t < - M + 1" by (simp only: of_int_less_iff)
  then show ?thesis by linarith
qed

lemma binary64_is_double:
  assumes "binary64 x = Fin y"
  shows "is_double y"
proof (cases "x = 0")
  case True
  then have "y = of_int 0 * 2 powi 0" using assms by simp
  then show ?thesis unfolding is_double_def by (intro exI [of _ 0]) simp
next
  case False
  define E where "E = exponent x"
  define m where "m = round_half_even (x / 2 powi E)"
  have p: "0 < (2::real) powi E" by simp
  from assms False have y: "y = of_int m * 2 powi E" and small: "\<bar>y\<bar> < 2 ^ 1024"
    by (auto simp: binary64_def Let_def E_def m_def signed_inf_def signed_zero_def
        split: if_splits)
  have Elo: "- 1074 \<le> E" using exponent_bounds(2) [OF False] by (simp add: E_def)
  have "\<bar>x\<bar> < 2 powi (E + 53)" using exponent_bounds(1) [OF False] by (simp add: E_def)
  then have "\<bar>x\<bar> < 2 powi E * 2 ^ 53" by (simp add: power_int_add)
  then have "\<bar>x / 2 powi E\<bar> < 2 ^ 53"
    using p by (simp add: abs_divide field_simps)
  then have "\<bar>x / 2 powi E\<bar> < of_int (2 ^ 53)" by simp
  then have mle: "\<bar>m\<bar> \<le> 2 ^ 53" unfolding m_def by (rule round_half_even_le)
  have ay: "\<bar>y\<bar> = of_int \<bar>m\<bar> * 2 powi E" by (simp add: y abs_mult)
  show ?thesis
  proof (cases "\<bar>m\<bar> < 2 ^ 53")
    case True
    have "E \<le> 971"
    proof (rule ccontr)
      assume "\<not> E \<le> 971"
      then have big: "972 \<le> E" by simp
      then have "- 1074 < E" by simp
      then have "2 powi (E + 52) \<le> \<bar>x\<bar>" using exponent_bounds(3) [OF False] by (simp add: E_def)
      then have "2 powi E * 2 ^ 52 \<le> \<bar>x\<bar>" by (simp add: power_int_add)
      then have "2 ^ 52 \<le> \<bar>x / 2 powi E\<bar>"
        using p by (simp add: abs_divide field_simps)
      then have "of_int (2 ^ 52) \<le> \<bar>x / 2 powi E\<bar>" by simp
      then have "2 ^ 52 \<le> \<bar>m\<bar>" unfolding m_def by (rule round_half_even_ge) simp
      then have "(2::real) ^ 52 \<le> of_int \<bar>m\<bar>" by (metis of_int_le_iff of_int_numeral of_int_power)
      moreover have "(2::real) powi 972 \<le> 2 powi E"
        using big by (intro power_int_increasing) simp_all
      ultimately have "(2::real) ^ 52 * 2 powi 972 \<le> of_int \<bar>m\<bar> * 2 powi E"
        by (intro mult_mono) simp_all
      then have "(2::real) ^ 1024 \<le> \<bar>y\<bar>" by (simp add: ay)
      then show False using small by linarith
    qed
    then show ?thesis unfolding is_double_def using y True Elo by blast
  next
    case False
    then have m53: "\<bar>m\<bar> = 2 ^ 53" using mle by linarith
    then have "\<bar>y\<bar> = 2 powi (E + 53)" by (simp add: ay power_int_add mult.commute)
    then have "(2::real) powi (E + 53) < 2 powi 1024" using small by simp
    have "E + 53 < 1024"
    proof (rule ccontr)
      assume "\<not> E + 53 < 1024"
      then have "(2::real) powi 1024 \<le> 2 powi (E + 53)"
        by (intro power_int_increasing) simp_all
      with \<open>(2::real) powi (E + 53) < 2 powi 1024\<close> show False by linarith
    qed
    then have Ehi: "E + 1 \<le> 971" by simp
    define m' where "m' = (if 0 \<le> m then (2::int) ^ 52 else - (2 ^ 52))"
    have "m = 2 * m'" using m53 by (auto simp: m'_def)
    then have "y = of_int m' * 2 powi (E + 1)" by (simp add: y power_int_add)
    moreover have "\<bar>m'\<bar> < 2 ^ 53" by (simp add: m'_def)
    ultimately show ?thesis unfolding is_double_def using Elo Ehi
      by (intro exI [of _ m'] exI [of _ "E + 1"]) simp
  qed
qed

lemma binary64_idem:
  assumes "is_double x"
  shows "binary64 x = Fin x"
  using assms binary64_exact unfolding is_double_def by blast

section \<open>Evaluating loops\<close>

lemma for_loop_step: "j < n \<Longrightarrow> for_loop j n body s = for_loop (j + 1) n body (body j s)"
  by (subst for_loop.simps) simp

lemma for_loop_done: "\<not> j < n \<Longrightarrow> for_loop j n body s = s"
  by (subst for_loop.simps) simp

lemma for_loopE_step:
  "j < n \<Longrightarrow> for_loopE j n body s =
     (case body j s of Inl e \<Rightarrow> Inl e | Inr s' \<Rightarrow> for_loopE (j + 1) n body s')"
  by (subst for_loopE.simps) simp

lemma for_loopE_done: "\<not> j < n \<Longrightarrow> for_loopE j n body s = Inr s"
  by (subst for_loopE.simps) simp

lemmas loop_simps = for_loop_step for_loop_done for_loopE_step for_loopE_done

lemma for_loopE_invariant:
  assumes "for_loopE j n body s = Inr s'" and "I j s" and "j \<le> n"
    and step: "\<And>i t t'. j \<le> i \<Longrightarrow> i < n \<Longrightarrow> I i t \<Longrightarrow> body i t = Inr t' \<Longrightarrow> I (i + 1) t'"
  shows "I n s'"
  using assms
proof (induction j n body s rule: for_loopE.induct)
  case (1 j n body s)
  show ?case
  proof (cases "j < n")
    case True
    with "1.prems"(1) obtain t where t: "body j s = Inr t" and rest: "for_loopE (j + 1) n body t = Inr s'"
      by (auto simp: loop_simps split: sum.splits)
    have "I (j + 1) t"
      using "1.prems"(4) [of j s t] True "1.prems"(2) t by simp
    then show ?thesis
      using "1.IH" [OF True t rest] True "1.prems"(4) by (simp add: loop_simps)
  next
    case False
    with "1.prems" show ?thesis by (simp add: loop_simps)
  qed
qed

lemma for_loop_invariant:
  assumes "I j s" and "j \<le> n"
    and step: "\<And>i t. j \<le> i \<Longrightarrow> i < n \<Longrightarrow> I i t \<Longrightarrow> I (i + 1) (body i t)"
  shows "I n (for_loop j n body s)"
  using assms
proof (induction j n body s rule: for_loop.induct)
  case (1 j n body s)
  show ?case
  proof (cases "j < n")
    case True
    have "I (j + 1) (body j s)"
      using "1.prems"(3) [of j s] True "1.prems"(1) by simp
    then show ?thesis
      using "1.IH" [OF True] True "1.prems"(3) by (simp add: loop_simps)
  next
    case False
    with "1.prems" show ?thesis by (simp add: loop_simps)
  qed
qed




lemma write_loop_inner:
  assumes run: "for_loopE 0 H (\<lambda>y v. case lookup v (b + y) of
              None \<Rightarrow> Inl TypeError | Some vert \<Rightarrow> Inr (v[nat (b + y) := f (b + y)])) v0 = Inr v'"
    and "0 \<le> b" and "0 \<le> H"
  shows "\<forall>i. lookup v' i = (if b \<le> i \<and> i < b + H then Some (f i) else lookup v0 i)"
proof -
  let ?I = "\<lambda>y v. \<forall>i. lookup v i = (if b \<le> i \<and> i < b + y then Some (f i) else lookup v0 i)"
  have "?I H v'"
  proof (rule for_loopE_invariant [where I = ?I, OF run])
    show "?I 0 v0" by auto
    show "0 \<le> H" by fact
  next
    fix y t t'
    assume y: "0 \<le> y" "y < H" and inv: "?I y t"
      and body: "(case lookup t (b + y) of None \<Rightarrow> Inl TypeError
                   | Some vert \<Rightarrow> Inr (t[nat (b + y) := f (b + y)])) = Inr t'"
    from body have inr: "0 \<le> b + y" "b + y < int (length t)" and t': "t' = t[nat (b + y) := f (b + y)]"
      by (auto simp: lookup_def split: if_splits)
    show "?I (y + 1) t'"
    proof
      fix i
      show "lookup t' i = (if b \<le> i \<and> i < b + (y + 1) then Some (f i) else lookup v0 i)"
      proof (cases "i = b + y")
        case True
        then show ?thesis using inr y \<open>0 \<le> b\<close> by (simp add: t' lookup_def)
      next
        case False
        then have "lookup t' i = lookup t i"
          using inr by (auto simp: t' lookup_def nat_eq_iff)
        then show ?thesis using inv False by auto
      qed
    qed
  qed
  then show ?thesis .
qed

lemma write_loop_outer:
  assumes run: "for_loopE 0 W (\<lambda>x. for_loopE 0 H (\<lambda>y v. case lookup v (x * H + y) of
              None \<Rightarrow> Inl TypeError | Some vert \<Rightarrow> Inr (v[nat (x * H + y) := f (x * H + y)]))) v0 = Inr v'"
    and "0 \<le> W" and "0 \<le> H"
  shows "\<forall>i. lookup v' i = (if 0 \<le> i \<and> i < W * H then Some (f i) else lookup v0 i)"
proof -
  let ?I = "\<lambda>x v. \<forall>i. lookup v i = (if 0 \<le> i \<and> i < x * H then Some (f i) else lookup v0 i)"
  have "?I W v'"
  proof (rule for_loopE_invariant [where I = ?I, OF run])
    show "?I 0 v0" by auto
    show "0 \<le> W" by fact
  next
    fix x t t'
    assume x: "0 \<le> x" "x < W" and inv: "?I x t"
      and body: "for_loopE 0 H (\<lambda>y v. case lookup v (x * H + y) of
              None \<Rightarrow> Inl TypeError | Some vert \<Rightarrow> Inr (v[nat (x * H + y) := f (x * H + y)])) t = Inr t'"
    have b: "0 \<le> x * H" using x \<open>0 \<le> H\<close> by simp
    have inner: "\<forall>i. lookup t' i = (if x * H \<le> i \<and> i < x * H + H then Some (f i) else lookup t i)"
      by (rule write_loop_inner [OF body b \<open>0 \<le> H\<close>])
    have eq: "(x + 1) * H = x * H + H" by (simp add: algebra_simps)
    show "?I (x + 1) t'"
      unfolding eq using inner inv b \<open>0 \<le> H\<close> by auto
  qed
  then show ?thesis .
qed

lemma for_loopE_succeeds:
  assumes "I j s"
    and step: "\<And>i t. j \<le> i \<Longrightarrow> i < n \<Longrightarrow> I i t \<Longrightarrow> \<exists>t'. body i t = Inr t' \<and> I (i + 1) t'"
  shows "\<exists>s'. for_loopE j n body s = Inr s' \<and> I (max j n) s'"
  using assms
proof (induction j n body s rule: for_loopE.induct)
  case (1 j n body s)
  show ?case
  proof (cases "j < n")
    case True
    from "1.prems"(2) [of j s] True "1.prems"(1)
    obtain t where t: "body j s = Inr t" and it: "I (j + 1) t" by auto
    have "\<exists>s'. for_loopE (j + 1) n body t = Inr s' \<and> I (max (j + 1) n) s'"
      using "1.IH" [OF True t it] "1.prems"(2) by simp
    then show ?thesis using True t by (simp add: max_def loop_simps)
  next
    case False
    with "1.prems" show ?thesis by (simp add: max_def loop_simps)
  qed
qed

lemma fromHeightmap_Inr:
  assumes "fromHeightmap draw verts options = Inr verts'"
  shows "\<exists>img. heightmap options = HeightmapObject (Some img) \<and>
           0 < widthSegments options \<and> 0 < heightSegments options \<and>
           (\<forall>i. lookup verts' i =
              (if 0 \<le> i \<and> i < widthSegments options * heightSegments options
               then Some (js_add
                      (js_mul (js_div (packed (draw img (widthSegments options)
                                                 (heightSegments options)) (i * 4))
                                 (Fin 16777215))
                         (js_sub (ToNumber (maxHeight options)) (ToNumber (minHeight options))))
                      (ToNumber (minHeight options)))
               else lookup verts i))"
proof -
  from assms obtain img where img: "heightmap options = HeightmapObject (Some img)"
    by (auto simp: fromHeightmap_def Let_def split: if_splits heightmap.splits option.splits)
  from assms img have pos: "0 < widthSegments options" "0 < heightSegments options"
    by (auto simp: fromHeightmap_def Let_def split: if_splits)
  from assms img pos have run:
    "for_loopE 0 (widthSegments options) (\<lambda>x. for_loopE 0 (heightSegments options) (\<lambda>y v.
        case lookup v (x * heightSegments options + y) of
          None \<Rightarrow> Inl TypeError
        | Some vert \<Rightarrow> Inr (v[nat (x * heightSegments options + y) :=
            (\<lambda>i. js_add
                      (js_mul (js_div (packed (draw img (widthSegments options)
                                                 (heightSegments options)) (i * 4))
                                 (Fin 16777215))
                         (js_sub (ToNumber (maxHeight options)) (ToNumber (minHeight options))))
                      (ToNumber (minHeight options))) (x * heightSegments options + y)]))) verts
     = Inr verts'"
    by (simp add: fromHeightmap_def Let_def cong: option.case_cong)
  show ?thesis
    using write_loop_outer [OF run] img pos by simp
qed


lemma fromHeightmap_succeeds:
  assumes hm: "heightmap options = HeightmapObject (Some img)"
    and pos: "0 < widthSegments options" "0 < heightSegments options"
    and len: "widthSegments options * heightSegments options \<le> int (length verts)"
  shows "\<exists>verts'. fromHeightmap draw verts options = Inr verts'"
proof -
  let ?W = "widthSegments options" and ?H = "heightSegments options"
  let ?I = "\<lambda>(j::int) (v::vertices). length v = length verts"
  have inner: "\<exists>t'. for_loopE 0 ?H (\<lambda>y v. case lookup v (x * ?H + y) of
                  None \<Rightarrow> Inl TypeError | Some vert \<Rightarrow> Inr (v[nat (x * ?H + y) := f x y])) t = Inr t'
                \<and> ?I (max 0 ?H) t'"
    if x: "0 \<le> x" "x < ?W" and t: "length t = length verts" for x t and f :: "int \<Rightarrow> int \<Rightarrow> number"
  proof (rule for_loopE_succeeds [where I = ?I])
    show "length t = length verts" by fact
  next
    fix y and v :: vertices
    assume y: "0 \<le> y" "y < ?H" and v: "length v = length verts"
    have "x * ?H + y < (x + 1) * ?H" using y by (simp add: algebra_simps)
    also have "\<dots> \<le> ?W * ?H" using x pos by (intro mult_right_mono) simp_all
    finally have "x * ?H + y < int (length v)" using len v by simp
    moreover have "0 \<le> x * ?H + y" using x y pos by simp
    ultimately show "\<exists>t'. (case lookup v (x * ?H + y) of
                  None \<Rightarrow> Inl TypeError | Some vert \<Rightarrow> Inr (v[nat (x * ?H + y) := f x y])) = Inr t'
                \<and> length t' = length verts"
      using v by (simp add: lookup_def)
  qed
  have outer: "\<exists>s'. for_loopE 0 ?W (\<lambda>x. for_loopE 0 ?H (\<lambda>y v. case lookup v (x * ?H + y) of
                  None \<Rightarrow> Inl TypeError | Some vert \<Rightarrow> Inr (v[nat (x * ?H + y) := f x y]))) verts = Inr s'
           \<and> ?I (max 0 ?W) s'" for f :: "int \<Rightarrow> int \<Rightarrow> number"
  proof (rule for_loopE_succeeds [where I = ?I])
    show "length verts = length verts" by simp
  next
    fix x and t :: vertices
    assume "0 \<le> x" "x < ?W" "length t = length verts"
    then show "\<exists>t'. for_loopE 0 ?H (\<lambda>y v. case lookup v (x * ?H + y) of
                  None \<Rightarrow> Inl TypeError | Some vert \<Rightarrow> Inr (v[nat (x * ?H + y) := f x y])) t = Inr t'
                \<and> length t' = length verts"
      using inner [of x t f] by simp
  qed
  show ?thesis
    using hm pos
      outer [of "\<lambda>x y. js_add
               (js_mul (js_div (packed (draw img ?W ?H) ((x * ?H + y) * 4)) (Fin 16777215))
                  (js_sub (ToNumber (maxHeight options)) (ToNumber (minHeight options))))
               (ToNumber (minHeight options))"]
    by (auto simp: fromHeightmap_def Let_def cong: option.case_cong)
qed



lemma length_store [simp]: "length (store a i v) = length a"
  by (simp add: store_def)

subsection \<open>The encoding range\<close>









subsection \<open>The pixels of the encoder\<close>








lemma lookup_ext:
  assumes "\<And>i. lookup a i = lookup b i"
  shows "a = b"
proof -
  have len: "length a = length b"
  proof (rule ccontr)
    assume "length a \<noteq> length b"
    then consider "length a < length b" | "length b < length a" by linarith
    then show False
      using assms [of "int (length a)"] assms [of "int (length b)"]
      by cases (simp_all add: lookup_def)
  qed
  show ?thesis
  proof (rule nth_equalityI [OF len])
    fix n assume "n < length a"
    then show "a ! n = b ! n" using assms [of "int n"] len by (simp add: lookup_def)
  qed
qed

lemma fromHeightmap_result:
  assumes hm: "heightmap options = HeightmapObject (Some img)"
    and pos: "0 < widthSegments options" "0 < heightSegments options"
    and len: "widthSegments options * heightSegments options \<le> int (length verts)"
    and res: "\<And>i. lookup res i =
              (if 0 \<le> i \<and> i < widthSegments options * heightSegments options
               then Some (js_add
                      (js_mul (js_div (packed (draw img (widthSegments options)
                                                 (heightSegments options)) (i * 4))
                                 (Fin 16777215))
                         (js_sub (ToNumber (maxHeight options)) (ToNumber (minHeight options))))
                      (ToNumber (minHeight options)))
               else lookup verts i)"
  shows "fromHeightmap draw verts options = Inr res"
proof -
  obtain verts' where run: "fromHeightmap draw verts options = Inr verts'"
    using fromHeightmap_succeeds [OF hm pos len] by blast
  have "lookup verts' i = lookup res i" for i
    using fromHeightmap_Inr [OF run] hm res [of i] by auto
  then have "verts' = res" by (rule lookup_ext)
  then show ?thesis using run by simp
qed

section \<open>Runs on concrete inputs\<close>

lemmas eval_simps = TerrainOptionsDefault_def lookup_def store_def js_sub_def js_gt_def
  loop_simps Let_def packed_def shl_def rescaled_def canvas_dim_def encoding_range_def scan_range_def
  signed_zero_def signed_inf_def

lemmas binary64_evals =
  binary64_eval [where k = "- 5"] binary64_eval [where k = "- 4"] binary64_eval [where k = "- 3"]
  binary64_eval [where k = 3] binary64_eval [where k = 4] binary64_eval [where k = 5]

lemma decode_10: "js_add (js_mul (js_div (Fin 657930) (Fin 16777215)) (Fin 255)) (Fin 0) = Fin 10"
  by (simp add: binary64_evals round_half_even_def power_int_minus Let_def signed_zero_def)

lemma decode_20: "js_add (js_mul (js_div (Fin 1315860) (Fin 16777215)) (Fin 255)) (Fin 0) = Fin 20"
  by (simp add: binary64_evals round_half_even_def power_int_minus Let_def signed_zero_def)

lemma decode_30: "js_add (js_mul (js_div (Fin 1973790) (Fin 16777215)) (Fin 255)) (Fin 0) = Fin 30"
  by (simp add: binary64_evals round_half_even_def power_int_minus Let_def signed_zero_def)

lemma decode_40: "js_add (js_mul (js_div (Fin 2631720) (Fin 16777215)) (Fin 255)) (Fin 0) = Fin 40"
  by (simp add: binary64_evals round_half_even_def power_int_minus Let_def signed_zero_def)

lemma decode_zero_spread: "js_add (js_mul (js_div (Fin 592137) (Fin 16777215)) (js_sub (Fin 7) (Fin 7))) (Fin 7) = Fin 7"
  by (simp add: binary64_evals round_half_even_def power_int_minus Let_def signed_zero_def js_sub_def)


text \<open>
  Claim C1, at the input where the code departs from it. A field of two by two samples
  \<open>0, 0, 0, 255\<close> is encoded with \<open>minHeight = 0\<close>, \<open>maxHeight = 255\<close> and one segment
  each way, and the image is decoded under the same options into a new vertex array.
  Whatever the canvas draws, the decoder writes the first sample only: the last sample
  comes back as 0, at distance 255 from the original, where the claim allows 1.
\<close>

theorem roundtrip_loses_samples:
  "toHeightmap [Fin 0, Fin 0, Fin 0, Fin 255]
     (TerrainOptionsDefault id\<lparr>maxHeight := Some (Fin 255), minHeight := Some (Fin 0),
        widthSegments := 1, heightSegments := 1\<rparr>)
   = Inr \<lparr>iwidth = 2, iheight = 2,
          idata = [0, 0, 0, 255, 0, 0, 0, 255, 0, 0, 0, 255, 255, 255, 255, 255]\<rparr>
   \<and> (\<exists>z. fromHeightmap draw [Fin 0, Fin 0, Fin 0, Fin 0]
         (TerrainOptionsDefault id\<lparr>maxHeight := Some (Fin 255), minHeight := Some (Fin 0),
            widthSegments := 1, heightSegments := 1,
            heightmap := HeightmapObject (Some \<lparr>iwidth = 2, iheight = 2,
              idata = [0, 0, 0, 255, 0, 0, 0, 255, 0, 0, 0, 255, 255, 255, 255, 255]\<rparr>)\<rparr>)
       = Inr [z, Fin 0, Fin 0, Fin 0])
   \<and> \<not> \<bar>255 - 0\<bar> \<le> (255 - 0) / (255 :: real)"
  by (simp add: toHeightmap_def fromHeightmap_def eval_simps eval_nat_numeral)

text \<open>
  Claim C3, at the input where the code departs from it. With two segments each way the
  grid has three by three samples, and the canvas of the decoder two by two pixels. The
  pixel in column 0 of row 1 (grey 30) is written to sample 2, which is column 2 of
  row 0 of the grid, not to sample \<open>1 * 3 + 0\<close>; the samples 4 to 8 are not written.
\<close>

theorem fromHeightmap_grid_mismatch:
  "fromHeightmap (\<lambda>img w h. idata img)
     [Fin 0, Fin 0, Fin 0, Fin 0, Fin 0, Fin 0, Fin 0, Fin 0, Fin 0]
     (TerrainOptionsDefault id\<lparr>maxHeight := Some (Fin 255), minHeight := Some (Fin 0),
        widthSegments := 2, heightSegments := 2,
        heightmap := HeightmapObject (Some \<lparr>iwidth = 2, iheight = 2,
          idata = [10, 10, 10, 255, 20, 20, 20, 255, 30, 30, 30, 255, 40, 40, 40, 255]\<rparr>)\<rparr>)
   = Inr [Fin 10, Fin 20, Fin 30, Fin 40, Fin 0, Fin 0, Fin 0, Fin 0, Fin 0]"
proof -
  let ?d = "[10, 10, 10, 255, 20, 20, 20, 255, 30, 30, 30, 255, 40, 40, 40, 255] :: 8 word list"
  let ?img = "\<lparr>iwidth = 2, iheight = 2, idata = ?d\<rparr>"
  let ?o = "TerrainOptionsDefault id\<lparr>maxHeight := Some (Fin 255), minHeight := Some (Fin 0),
        widthSegments := 2, heightSegments := 2, heightmap := HeightmapObject (Some ?img)\<rparr>"
  let ?v = "[Fin 0, Fin 0, Fin 0, Fin 0, Fin 0, Fin 0, Fin 0, Fin 0, Fin 0]"
  let ?draw = "\<lambda>(img :: ImageData) (w :: int) (h :: int). idata img"
  have hm: "heightmap ?o = HeightmapObject (Some ?img)"
    and pos: "0 < widthSegments ?o" "0 < heightSegments ?o"
    and len: "widthSegments ?o * heightSegments ?o \<le> int (length ?v)"
    by (simp_all add: TerrainOptionsDefault_def)
  obtain verts' where run: "fromHeightmap ?draw ?v ?o = Inr verts'"
    using fromHeightmap_succeeds [where draw = ?draw and options = ?o, OF hm pos len] by blast
  have val: "lookup verts' i =
      (if 0 \<le> i \<and> i < 4
       then Some (js_add (js_mul (js_div (packed ?d (i * 4)) (Fin 16777215)) (Fin 255)) (Fin 0))
       else lookup ?v i)" for i
    using fromHeightmap_Inr [where draw = ?draw and options = ?o, OF run]
    by (simp add: TerrainOptionsDefault_def js_sub_def)
  have p: "packed ?d 0 = Fin 657930" "packed ?d 4 = Fin 1315860"
    "packed ?d 8 = Fin 1973790" "packed ?d 12 = Fin 2631720"
    by (simp_all add: packed_def lookup_def shl_def)
  have "lookup verts' i =
      lookup [Fin 10, Fin 20, Fin 30, Fin 40, Fin 0, Fin 0, Fin 0, Fin 0, Fin 0] i" for i
  proof -
    consider "i < 0" | "i = 0" | "i = 1" | "i = 2" | "i = 3" | "i = 4" | "i = 5" | "i = 6"
      | "i = 7" | "i = 8" | "9 \<le> i" by linarith
    then show ?thesis
    proof cases
      case 2 then show ?thesis using decode_10 by (simp only: val) (simp add: p lookup_def)
    next
      case 3 then show ?thesis using decode_20 by (simp only: val) (simp add: p lookup_def)
    next
      case 4 then show ?thesis using decode_30 by (simp only: val) (simp add: p lookup_def)
    next
      case 5 then show ?thesis using decode_40 by (simp only: val) (simp add: p lookup_def)
    qed (simp_all only: val, simp_all add: lookup_def)
  qed
  then have "verts' = [Fin 10, Fin 20, Fin 30, Fin 40, Fin 0, Fin 0, Fin 0, Fin 0, Fin 0]"
    by (rule lookup_ext)
  then show ?thesis using run by simp
qed

section \<open>Encoding: toHeightmap\<close>




section \<open>The zero-spread range\<close>

text \<open>
  Claim C5, at the input where the code departs from it. With \<open>maxHeight = minHeight = 7\<close>
  and one segment each way, the grid has two by two samples and the canvas of the
  decoder one pixel. The sample 0 is decoded to 7 (the product by the zero spread is 0,
  no \<^verbatim>\<open>NaN\<close> and no infinity arises); the samples 1 to 3 are not written and keep the
  value 0 they had, which is not \<open>minHeight\<close>.
\<close>

theorem zero_spread_leaves_samples:
  "fromHeightmap (\<lambda>img w h. idata img) [Fin 0, Fin 0, Fin 0, Fin 0]
     (TerrainOptionsDefault id\<lparr>maxHeight := Some (Fin 7), minHeight := Some (Fin 7),
        widthSegments := 1, heightSegments := 1,
        heightmap := HeightmapObject (Some \<lparr>iwidth = 1, iheight = 1, idata = [9, 9, 9, 255]\<rparr>)\<rparr>)
   = Inr [Fin 7, Fin 0, Fin 0, Fin 0]"
proof -
  let ?img = "\<lparr>iwidth = 1, iheight = 1, idata = [9, 9, 9, 255]\<rparr>"
  let ?o = "TerrainOptionsDefault id\<lparr>maxHeight := Some (Fin 7), minHeight := Some (Fin 7),
        widthSegments := 1, heightSegments := 1, heightmap := HeightmapObject (Some ?img)\<rparr>"
  let ?v = "[Fin 0, Fin 0, Fin 0, Fin 0]"
  let ?draw = "\<lambda>(img :: ImageData) (w :: int) (h :: int). idata img"
  have hm: "heightmap ?o = HeightmapObject (Some ?img)"
    and pos: "0 < widthSegments ?o" "0 < heightSegments ?o"
    and len: "widthSegments ?o * heightSegments ?o \<le> int (length ?v)"
    by (simp_all add: TerrainOptionsDefault_def)
  have p: "packed [9, 9, 9, 255] 0 = Fin 592137"
    by (simp add: packed_def lookup_def shl_def)
  have res: "lookup [Fin 7, Fin 0, Fin 0, Fin 0] i =
       (if 0 \<le> i \<and> i < widthSegments ?o * heightSegments ?o
        then Some (js_add (js_mul (js_div (packed (?draw ?img (widthSegments ?o) (heightSegments ?o))
                                      (i * 4)) (Fin 16777215))
                      (js_sub (ToNumber (maxHeight ?o)) (ToNumber (minHeight ?o))))
                    (ToNumber (minHeight ?o)))
        else lookup ?v i)" for i
  proof -
    consider "i < 0" | "i = 0" | "i = 1" | "i = 2" | "i = 3" | "4 \<le> i" by linarith
    then show ?thesis
    proof cases
      case 2
      then show ?thesis
        using decode_zero_spread by (simp add: TerrainOptionsDefault_def p) (simp add: lookup_def js_sub_def)
    qed (simp_all add: TerrainOptionsDefault_def lookup_def)
  qed
  show ?thesis
    by (rule fromHeightmap_result [where draw = ?draw and options = ?o, OF hm pos len res])
qed

section \<open>The normalization pipeline and the constructor\<close>

lemma steps_condition: "truthy s \<and> js_gt s (Fin 1) \<longleftrightarrow> js_gt s (Fin 1)"
  by (cases s) (auto simp: js_gt_def)

text \<open>
  Claim C6. \<^verbatim>\<open>normalizeTerrain\<close> calls, in this order: the turbulence filter exactly
  when \<^verbatim>\<open>options.turbulent\<close> holds; the step filter and then the smoothing filter exactly
  when \<^verbatim>\<open>options.steps > 1\<close>; the clamp filter in every run; the \<^verbatim>\<open>after\<close> hook exactly
  when one is supplied; then the three recomputations of the geometry. The vertices it
  leaves are the composition of the filters that ran, in that order.
\<close>

theorem normalizeTerrain_pipeline:
  "snd (normalizeTerrain env (g0, calls) options) =
     calls
     @ (if turbulent options then [Call_applyTurbulenceTurbulence] else [])
     @ (if js_gt (steps options) (Fin 1)
        then [Call_applyTerrainStep (steps options), Call_applyTerrainSmooth] else [])
     @ [Call_applyTerrainClamp]
     @ (if after options \<noteq> None then [Call_after] else [])
     @ [Call_computeBoundingSphere, Call_computeFaceNormals, Call_computeVertexNormals]
   \<and> vertices (fst (normalizeTerrain env (g0, calls) options)) =
     (case after options of Some callback \<Rightarrow> callback | None \<Rightarrow> (\<lambda>v. v))
       (applyTerrainClamp env
         ((if js_gt (steps options) (Fin 1)
           then (\<lambda>v. applyTerrainSmooth env (applyTerrainStep env v (steps options)) options)
           else (\<lambda>v. v))
            ((if turbulent options then (\<lambda>v. applyTurbulenceTurbulence env v options)
              else (\<lambda>v. v)) (vertices g0)))
         options)"
  by (simp add: normalizeTerrain_def Let_def steps_condition split: option.splits)










end
